theory Spec2Isabelle
  imports Main "HOL-Library.Word" "HOL-Library.Finite_Map"
begin

section \<open>The OS X processor resolver of facter\<close>

text \<open>
  The development embeds \<^verbatim>\<open>processor_resolver::resolve_structured_processors\<close> of
  \<^verbatim>\<open>lib/src/facts/osx/processor_resolver.cc\<close>. The routine asks the kernel three questions
  through \<^verbatim>\<open>sysctlbyname\<close> and hands at most one structured fact to a collection.
  The kernel is an input of the model; the \<^verbatim>\<open>LOG_DEBUG\<close> lines write to the logger only and
  are left out.

  The routine is embedded twice. The first embedding (\<open>loop_body\<close>, \<open>brand_loop\<close>,
  \<open>for_loop\<close>, \<open>resolve_structured_processors\<close>) is the routine on a machine whose allocator
  grants every request: buffer sizes are natural numbers, a \<^verbatim>\<open>vector\<close> can always grow, and
  the retry loop can run for ever. The second embedding (the same names with \<open>_mem\<close>) adds the
  allocator: a request it refuses throws \<^verbatim>\<open>std::bad_alloc\<close>, and since the routine catches
  nothing the exception leaves the routine. Every return of the second embedding is a return
  of the first (lemma \<open>resolve_mem_returns\<close>).
\<close>

subsection \<open>Fact values and the collection\<close>

text \<open>
  The four kinds of value the routine builds. \<^verbatim>\<open>integer_value\<close> stores an \<^verbatim>\<open>int64_t\<close>, which
  holds every \<^verbatim>\<open>int\<close>, so the stored number is the signed reading of the 32-bit variable.
\<close>

datatype fact_value =
    integer_value int
  | string_value string
  | array_value "fact_value list"
  | map_value "(string, fact_value) fmap"

text \<open>
  Modelled from the spec: \<^verbatim>\<open>map_value::add\<close> is declared in \<^verbatim>\<open>map_value.hpp\<close>, which is not
  part of the sources at hand. The record is "a key-ordered mapping with optional fields",
  to which fields are "added"; the routine adds each key at most once.
\<close>

definition map_value_add :: "string \<Rightarrow> fact_value \<Rightarrow> (string, fact_value) fmap \<Rightarrow> (string, fact_value) fmap" where
  "map_value_add name v m = fmupd name v m"

text \<open>
  Modelled from the spec: \<^verbatim>\<open>map_value::empty\<close>, of the same header. The record is empty when
  it does not have "at least one field".
\<close>

definition map_value_empty :: "(string, fact_value) fmap \<Rightarrow> bool" where
  "map_value_empty m \<longleftrightarrow> fmdom m = {||}"

text \<open>
  Modelled from the spec: the class \<^verbatim>\<open>collection\<close> of \<^verbatim>\<open>collection.hpp\<close>, not part of the
  sources at hand, is the "caller-supplied fact collection", whose records are "keyed by"
  a name.
\<close>

type_synonym collection = "(string, fact_value) fmap"

text \<open>
  Modelled from the spec: the constant \<^verbatim>\<open>fact::processors\<close> of \<^verbatim>\<open>fact.hpp\<close>, not part of the
  sources at hand, is the "fixed name" of the record, "processors".
\<close>

definition fact_processors :: string where
  "fact_processors = ''processors''"

text \<open>
  Modelled from the spec: \<^verbatim>\<open>collection::add\<close>, of \<^verbatim>\<open>collection.hpp\<close>: the record is "added to
  a caller-supplied fact collection, keyed by a fixed name".
\<close>

definition collection_add :: "string \<Rightarrow> fact_value \<Rightarrow> collection \<Rightarrow> collection" where
  "collection_add name v facts = fmupd name v facts"

subsection \<open>The kernel interface\<close>

text \<open>
  What \<^verbatim>\<open>sysctlbyname\<close> answers. A query for an \<^verbatim>\<open>int\<close> either stores a 32-bit value or fails
  with an \<^verbatim>\<open>errno\<close>. A query for a string is asked with a buffer of some size and either copies
  bytes into it or fails with an \<^verbatim>\<open>errno\<close>; the answer may depend on the size offered, in
  any way. The routine asks each name at most once with each size, so a function of the
  name and the size describes every kernel.

  The model takes a failed call to leave the caller's variable and buffer as they were.
  (The system call may copy the part of a string that fits before it reports an
  insufficient buffer; the routine never reads those bytes when the later, successful copy
  is the whole string.)
\<close>

datatype int_reply = IntOk "32 word" | IntErr int

datatype str_reply = StrOk "char list" | StrErr int

record kernel =
  sysctl_int :: "string \<Rightarrow> int_reply"
  sysctl_str :: "string \<Rightarrow> nat \<Rightarrow> str_reply"

text \<open>
  Modelled from the spec: \<^verbatim>\<open>ENOMEM\<close> is a constant of \<^verbatim>\<open>errno.h\<close>, the "insufficient-buffer
  condition"; 12 is its value on OS X. No proof depends on the number.
\<close>

definition ENOMEM :: int where
  "ENOMEM = 12"

type_synonym buffer = "char list"

definition NUL :: char where
  "NUL = CHR 0x00"

text \<open>\<^verbatim>\<open>vector<char>::resize\<close>: cut to \<open>n\<close> bytes, or padded with zero bytes up to \<open>n\<close>.\<close>

definition resize :: "nat \<Rightarrow> buffer \<Rightarrow> buffer" where
  "resize n buffer = take n buffer @ replicate (n - length buffer) NUL"

text \<open>
  The kernel copies at most as many bytes as the buffer holds, over the front of the buffer,
  and reports the number of bytes copied.
\<close>

definition overwrite :: "char list \<Rightarrow> buffer \<Rightarrow> buffer" where
  "overwrite d buffer = take (length buffer) d @ drop (length d) buffer"

text \<open>
  The outcome of one call: the return code (0 or -1) and the variable after the call, or
  the return code, \<^verbatim>\<open>errno\<close>, the size and the buffer after the call. The routine reads
  \<^verbatim>\<open>errno\<close> only after a failed call.
\<close>

definition sysctlbyname_int :: "kernel \<Rightarrow> string \<Rightarrow> 32 word \<Rightarrow> int \<times> 32 word" where
  "sysctlbyname_int k name var =
     (case sysctl_int k name of
        IntOk v \<Rightarrow> (0, v)
      | IntErr e \<Rightarrow> (- 1, var))"

definition sysctlbyname_str :: "kernel \<Rightarrow> string \<Rightarrow> buffer \<Rightarrow> nat \<Rightarrow> int \<times> int \<times> nat \<times> buffer" where
  "sysctlbyname_str k name buffer sz =
     (case sysctl_str k name sz of
        StrOk d \<Rightarrow> (0, 0, min (length d) sz, overwrite d buffer)
      | StrErr e \<Rightarrow> (- 1, e, sz, buffer))"

text \<open>\<^verbatim>\<open>string description(buffer.data())\<close>: the bytes before the first zero byte.\<close>

definition c_string :: "buffer \<Rightarrow> string" where
  "c_string buffer = takeWhile (\<lambda>c. c \<noteq> NUL) buffer"

subsection \<open>The resolver\<close>

text \<open>
  One pass through the body of the \<^verbatim>\<open>do ... while (true)\<close> loop: the loop is left by
  \<^verbatim>\<open>break\<close> with the final buffer, the whole routine is left by \<^verbatim>\<open>return\<close>, or the loop
  goes round again with a buffer twice as long.
\<close>

datatype iteration = Break buffer | Return | Again buffer

definition loop_body :: "kernel \<Rightarrow> buffer \<Rightarrow> iteration" where
  "loop_body k buffer =
     (let sz = length buffer;
          (rc, errno, sz, buffer) = sysctlbyname_str k ''machdep.cpu.brand_string'' buffer sz
      in if rc = 0 then Break (resize (sz + 1) buffer)
         else if errno \<noteq> ENOMEM then Return
         else Again (resize (length buffer * 2) buffer))"

text \<open>
  The loop has no bound of its own, so it is a partial function: \<open>None\<close> means that it
  never ends. \<open>Some None\<close> is the \<^verbatim>\<open>return\<close> from inside the loop, \<open>Some (Some b)\<close> the
  \<^verbatim>\<open>break\<close> with buffer \<open>b\<close>.
\<close>

partial_function (option) brand_loop :: "kernel \<Rightarrow> buffer \<Rightarrow> buffer option option" where
  "brand_loop k buffer =
     (case loop_body k buffer of
        Break b \<Rightarrow> Some (Some b)
      | Return \<Rightarrow> Some None
      | Again b \<Rightarrow> brand_loop k b)"

declare brand_loop.simps [code]

text \<open>
  The \<^verbatim>\<open>for\<close> loop that adds the description once for each logical processor. The counter
  stays below \<open>logical_count\<close>, an \<^verbatim>\<open>int\<close>, so \<^verbatim>\<open>++i\<close> never overflows and the
  counter is an integer here.
\<close>

function for_loop :: "int \<Rightarrow> int \<Rightarrow> string \<Rightarrow> fact_value list \<Rightarrow> fact_value list" where
  "for_loop i logical_count description processor_list =
     (if i < logical_count
      then for_loop (i + 1) logical_count description (processor_list @ [string_value description])
      else processor_list)"
  by pat_completeness auto
termination
  by (relation "measure (\<lambda>(i, logical_count, description, processor_list). nat (logical_count - i))") auto

declare for_loop.simps [simp del]

text \<open>
  The routine. The result \<open>None\<close> means that the call never returns; \<open>Some facts'\<close> is the
  collection after the call.
\<close>

definition resolve_structured_processors :: "kernel \<Rightarrow> collection \<Rightarrow> collection option" where
  "resolve_structured_processors k facts =
     (let processors_value = fmempty;
          logical_count = 0;
          (rc, logical_count) = sysctlbyname_int k ''hw.logicalcpu_max'' logical_count;
          processors_value =
            (if rc \<noteq> 0 then processors_value
             else map_value_add ''count'' (integer_value (sint logical_count)) processors_value);
          physical_count = 0;
          (rc, physical_count) = sysctlbyname_int k ''hw.physicalcpu_max'' physical_count;
          processors_value =
            (if rc \<noteq> 0 then processors_value
             else map_value_add ''physicalcount'' (integer_value (sint physical_count)) processors_value);
          processor_list = [];
          finish = (\<lambda>processor_list.
            let processors_value =
                  (if length processor_list > 0
                   then map_value_add ''models'' (array_value processor_list) processors_value
                   else processors_value)
            in if \<not> map_value_empty processors_value
               then collection_add fact_processors (map_value processors_value) facts
               else facts)
      in if 0 <s logical_count then
           (case brand_loop k (replicate 256 NUL) of
              None \<Rightarrow> None
            | Some None \<Rightarrow> Some facts
            | Some (Some buffer) \<Rightarrow>
                (let description = c_string buffer;
                     processor_list = for_loop 0 (sint logical_count) description processor_list
                 in Some (finish processor_list)))
         else Some (finish processor_list))"

subsection \<open>The resolver with an allocator\<close>

text \<open>
  The only exception the routine can meet: it throws none itself, and the library calls it
  makes throw when memory cannot be had.
\<close>

datatype exception = bad_alloc

text \<open>
  The allocator, as far as one call of the routine can tell: the largest \<^verbatim>\<open>vector<char>\<close> it
  grants, in bytes, and the longest list of model entries it grants. The routine asks for
  vectors of growing size and for one entry after another, and the first refusal ends the
  call, so two bounds describe every allocator. The objects of fixed size (the record, the
  two counts, the empty list) and the description, which is no longer than the vector
  already granted, are taken to be granted.
\<close>

record allocator =
  largest_vector :: nat
  most_entries :: nat

text \<open>
  \<^verbatim>\<open>vector<char> buffer(n)\<close> and \<^verbatim>\<open>buffer.resize(n)\<close> with the allocator: a vector that has to
  grow beyond what the allocator grants throws; a vector that shrinks asks for nothing.
\<close>

definition vector_resize :: "allocator \<Rightarrow> nat \<Rightarrow> buffer \<Rightarrow> exception + buffer" where
  "vector_resize a n buffer =
     (if length buffer < n \<and> largest_vector a < n then Inl bad_alloc
      else Inr (resize n buffer))"

text \<open>One pass of the retry loop; \<open>Inl\<close> is an exception on its way out of the routine.\<close>

definition loop_body_mem :: "allocator \<Rightarrow> kernel \<Rightarrow> buffer \<Rightarrow> exception + iteration" where
  "loop_body_mem a k buffer =
     (let sz = length buffer;
          (rc, errno, sz, buffer) = sysctlbyname_str k ''machdep.cpu.brand_string'' buffer sz
      in if rc = 0 then
           (case vector_resize a (sz + 1) buffer of
              Inl e \<Rightarrow> Inl e
            | Inr buffer \<Rightarrow> Inr (Break buffer))
         else if errno \<noteq> ENOMEM then Inr Return
         else
           (case vector_resize a (length buffer * 2) buffer of
              Inl e \<Rightarrow> Inl e
            | Inr buffer \<Rightarrow> Inr (Again buffer)))"

text \<open>
  The retry loop. \<open>None\<close> would be a loop that never ends; \<open>Some (Inl e)\<close> is the exception
  \<open>e\<close> leaving the loop and the routine, \<open>Some (Inr None)\<close> the \<^verbatim>\<open>return\<close> from inside the
  loop, \<open>Some (Inr (Some b))\<close> the \<^verbatim>\<open>break\<close> with buffer \<open>b\<close>.
\<close>

partial_function (option) brand_loop_mem ::
    "allocator \<Rightarrow> kernel \<Rightarrow> buffer \<Rightarrow> (exception + buffer option) option" where
  "brand_loop_mem a k buffer =
     (case loop_body_mem a k buffer of
        Inl e \<Rightarrow> Some (Inl e)
      | Inr (Break b) \<Rightarrow> Some (Inr (Some b))
      | Inr Return \<Rightarrow> Some (Inr None)
      | Inr (Again b) \<Rightarrow> brand_loop_mem a k b)"

declare brand_loop_mem.simps [code]

text \<open>
  The \<^verbatim>\<open>for\<close> loop: each pass allocates one \<^verbatim>\<open>string_value\<close> and appends it to the list,
  which the allocator may refuse.
\<close>

function for_loop_mem ::
    "allocator \<Rightarrow> int \<Rightarrow> int \<Rightarrow> string \<Rightarrow> fact_value list \<Rightarrow> exception + fact_value list" where
  "for_loop_mem a i logical_count description processor_list =
     (if i < logical_count then
        (if most_entries a \<le> length processor_list then Inl bad_alloc
         else for_loop_mem a (i + 1) logical_count description
                (processor_list @ [string_value description]))
      else Inr processor_list)"
  by pat_completeness auto
termination
  by (relation "measure (\<lambda>(a, i, logical_count, description, processor_list). nat (logical_count - i))") auto

declare for_loop_mem.simps [simp del]

text \<open>
  The routine. \<open>Some (Inr facts')\<close> is the collection after a call that returns,
  \<open>Some (Inl e)\<close> a call that the exception \<open>e\<close> leaves; the collection is then as it was,
  because \<^verbatim>\<open>facts.add\<close> is the last thing the routine does.
\<close>

definition resolve_structured_processors_mem ::
    "allocator \<Rightarrow> kernel \<Rightarrow> collection \<Rightarrow> (exception + collection) option" where
  "resolve_structured_processors_mem a k facts =
     (let processors_value = fmempty;
          logical_count = 0;
          (rc, logical_count) = sysctlbyname_int k ''hw.logicalcpu_max'' logical_count;
          processors_value =
            (if rc \<noteq> 0 then processors_value
             else map_value_add ''count'' (integer_value (sint logical_count)) processors_value);
          physical_count = 0;
          (rc, physical_count) = sysctlbyname_int k ''hw.physicalcpu_max'' physical_count;
          processors_value =
            (if rc \<noteq> 0 then processors_value
             else map_value_add ''physicalcount'' (integer_value (sint physical_count)) processors_value);
          processor_list = [];
          finish = (\<lambda>processor_list.
            let processors_value =
                  (if length processor_list > 0
                   then map_value_add ''models'' (array_value processor_list) processors_value
                   else processors_value)
            in if \<not> map_value_empty processors_value
               then collection_add fact_processors (map_value processors_value) facts
               else facts)
      in if 0 <s logical_count then
           (case vector_resize a 256 [] of
              Inl e \<Rightarrow> Some (Inl e)
            | Inr buffer \<Rightarrow>
                (case brand_loop_mem a k buffer of
                   None \<Rightarrow> None
                 | Some (Inl e) \<Rightarrow> Some (Inl e)
                 | Some (Inr None) \<Rightarrow> Some (Inr facts)
                 | Some (Inr (Some buffer)) \<Rightarrow>
                     (let description = c_string buffer
                      in case for_loop_mem a 0 (sint logical_count) description processor_list of
                           Inl e \<Rightarrow> Some (Inl e)
                         | Inr processor_list \<Rightarrow> Some (Inr (finish processor_list)))))
         else Some (Inr (finish processor_list)))"

subsection \<open>Example kernels, allocators and collections\<close>

text \<open>
  Kernels to run the routine on. \<open>make_kernel\<close> answers the three names the routine asks
  for and knows no other name; \<open>stored_string s\<close> is the documented behaviour of a string
  query: the string and its terminating zero byte when the buffer holds them, the
  insufficient-buffer error otherwise.
\<close>

definition ENOENT :: int where
  "ENOENT = 2"

definition EPERM :: int where
  "EPERM = 1"

definition make_kernel :: "int_reply \<Rightarrow> int_reply \<Rightarrow> (nat \<Rightarrow> str_reply) \<Rightarrow> kernel" where
  "make_kernel logical physical brand =
     \<lparr>sysctl_int = (\<lambda>name.
         if name = ''hw.logicalcpu_max'' then logical
         else if name = ''hw.physicalcpu_max'' then physical
         else IntErr ENOENT),
      sysctl_str = (\<lambda>name sz.
         if name = ''machdep.cpu.brand_string'' then brand sz else StrErr ENOENT)\<rparr>"

definition stored_string :: "string \<Rightarrow> nat \<Rightarrow> str_reply" where
  "stored_string s sz = (if length s + 1 \<le> sz then StrOk (s @ [NUL]) else StrErr ENOMEM)"


text \<open>A brand string of 599 characters: 256 and 512 bytes are too few, 1024 are enough.\<close>

definition long_brand_kernel :: kernel where
  "long_brand_kernel = make_kernel (IntOk 4) (IntOk 2) (stored_string (replicate 599 CHR ''x''))"

text \<open>Both counts are known, the brand string is refused.\<close>

definition denied_kernel :: kernel where
  "denied_kernel = make_kernel (IntOk 4) (IntOk 2) (\<lambda>sz. StrErr EPERM)"

text \<open>Nothing is known.\<close>

definition no_sysctl_kernel :: kernel where
  "no_sysctl_kernel = make_kernel (IntErr ENOENT) (IntErr ENOENT) (\<lambda>sz. StrErr ENOENT)"

text \<open>One of the two counts is unknown.\<close>

definition no_logical_kernel :: kernel where
  "no_logical_kernel = make_kernel (IntErr ENOENT) (IntOk 2) (stored_string ''Example CPU'')"

definition no_physical_kernel :: kernel where
  "no_physical_kernel = make_kernel (IntOk 4) (IntErr ENOENT) (stored_string ''Example CPU'')"

text \<open>The logical count is known to be zero.\<close>

definition zero_kernel :: kernel where
  "zero_kernel = make_kernel (IntOk 0) (IntOk 2) (stored_string ''Example CPU'')"

text \<open>A collection that already holds a fact.\<close>

definition some_facts :: collection where
  "some_facts = collection_add ''kernel'' (string_value ''Darwin'') fmempty"

text \<open>A kernel that finds every buffer too small.\<close>

definition persistent_enomem_kernel :: kernel where
  "persistent_enomem_kernel = make_kernel (IntOk 4) (IntOk 2) (\<lambda>sz. StrErr ENOMEM)"

text \<open>An allocator that grants vectors of up to two gigabytes.\<close>

definition two_gigabytes :: allocator where
  "two_gigabytes = \<lparr>largest_vector = 2147483648, most_entries = 100000000\<rparr>"



section \<open>Basic facts\<close>

subsection \<open>Buffers\<close>

lemma length_resize: "length (resize n b) = n"
  by (simp add: resize_def)

lemma resize_zeros: "resize n (replicate m NUL) = replicate n NUL" if "m \<le> n"
  using that by (simp add: resize_def replicate_add [symmetric] del: replicate_add)

text \<open>
  After a successful copy into a fresh buffer the vector holds the copied bytes and one
  zero byte: \<^verbatim>\<open>resize(size + 1)\<close> cuts the buffer behind a byte that was never written, or
  appends a zero byte when the copy filled the buffer.
\<close>

lemma buffer_after_copy:
  "length d \<le> n \<Longrightarrow>
   resize (min (length d) n + 1) (overwrite d (replicate n NUL)) = d @ [NUL]"
  by (cases "length d = n") (simp_all add: resize_def overwrite_def min_def)

lemma c_string_terminated: "c_string (d @ [NUL]) = takeWhile (\<lambda>c. c \<noteq> NUL) d"
  by (induction d) (simp_all add: c_string_def)

subsection \<open>One pass of the retry loop\<close>

lemma loop_body_ok:
  "sysctl_str k ''machdep.cpu.brand_string'' (length b) = StrOk d \<Longrightarrow>
   loop_body k b = Break (resize (min (length d) (length b) + 1) (overwrite d b))"
  by (simp add: loop_body_def sysctlbyname_str_def)

lemma loop_body_enomem:
  "sysctl_str k ''machdep.cpu.brand_string'' (length b) = StrErr ENOMEM \<Longrightarrow>
   loop_body k b = Again (resize (length b * 2) b)"
  by (simp add: loop_body_def sysctlbyname_str_def)

lemma loop_body_other:
  "sysctl_str k ''machdep.cpu.brand_string'' (length b) = StrErr e \<Longrightarrow> e \<noteq> ENOMEM \<Longrightarrow>
   loop_body k b = Return"
  by (simp add: loop_body_def sysctlbyname_str_def)

subsection \<open>The retry loop\<close>

lemma brand_loop_Break: "loop_body k b = Break b' \<Longrightarrow> brand_loop k b = Some (Some b')"
  by (subst brand_loop.simps) simp

lemma brand_loop_Return: "loop_body k b = Return \<Longrightarrow> brand_loop k b = Some None"
  by (subst brand_loop.simps) simp

lemma brand_loop_Again: "loop_body k b = Again b' \<Longrightarrow> brand_loop k b = brand_loop k b'"
  by (subst brand_loop.simps) simp

lemma brand_loop_retries:
  "(\<forall>j<n. sysctl_str k ''machdep.cpu.brand_string'' (256 * 2 ^ j) = StrErr ENOMEM) \<Longrightarrow>
   brand_loop k (replicate 256 NUL) = brand_loop k (replicate (256 * 2 ^ n) NUL)"
proof (induction n)
  case 0
  show ?case by simp
next
  case (Suc n)
  let ?b = "replicate (256 * 2 ^ n) NUL"
  from Suc.prems have "sysctl_str k ''machdep.cpu.brand_string'' (length ?b) = StrErr ENOMEM"
    by simp
  then have "loop_body k ?b = Again (resize (length ?b * 2) ?b)"
    by (rule loop_body_enomem)
  then have "brand_loop k ?b = brand_loop k (replicate (256 * 2 ^ Suc n) NUL)"
    by (simp add: brand_loop_Again resize_zeros mult.commute mult.left_commute)
  with Suc show ?case by simp
qed

text \<open>
  The first size at which the kernel answers anything but the insufficient-buffer error
  decides how the loop ends.
\<close>

lemma brand_loop_stops:
  assumes "\<forall>j<r. sysctl_str k ''machdep.cpu.brand_string'' (256 * 2 ^ j) = StrErr ENOMEM"
    and "sysctl_str k ''machdep.cpu.brand_string'' (256 * 2 ^ r) \<noteq> StrErr ENOMEM"
  shows "brand_loop k (replicate 256 NUL) =
    Some (case sysctl_str k ''machdep.cpu.brand_string'' (256 * 2 ^ r) of
            StrOk d \<Rightarrow> Some (resize (min (length d) (256 * 2 ^ r) + 1)
                               (overwrite d (replicate (256 * 2 ^ r) NUL)))
          | StrErr e \<Rightarrow> None)"
proof -
  let ?b = "replicate (256 * 2 ^ r) NUL"
  have eq: "brand_loop k (replicate 256 NUL) = brand_loop k ?b"
    using assms(1) by (rule brand_loop_retries)
  show ?thesis
  proof (cases "sysctl_str k ''machdep.cpu.brand_string'' (256 * 2 ^ r)")
    case (StrOk d)
    then have "loop_body k ?b = Break (resize (min (length d) (length ?b) + 1) (overwrite d ?b))"
      by (intro loop_body_ok) simp
    then show ?thesis using eq StrOk by (simp add: brand_loop_Break)
  next
    case (StrErr e)
    with assms(2) have "e \<noteq> ENOMEM" by simp
    with StrErr have "loop_body k ?b = Return"
      by (intro loop_body_other [where e = e]) simp_all
    then show ?thesis using eq StrErr by (simp add: brand_loop_Return)
  qed
qed

subsection \<open>The \<^verbatim>\<open>for\<close> loop\<close>

lemma for_loop_replicate:
  "for_loop i n description processor_list =
   processor_list @ replicate (nat (n - i)) (string_value description)"
proof (induction i n description processor_list rule: for_loop.induct)
  case (1 i n description processor_list)
  show ?case
  proof (cases "i < n")
    case True
    then have "nat (n - i) = Suc (nat (n - (i + 1)))" by simp
    with True "1.IH" show ?thesis
      by (subst for_loop.simps) (simp add: replicate_append_same)
  next
    case False
    then show ?thesis by (subst for_loop.simps) simp
  qed
qed

subsection \<open>The routine, case by case\<close>

lemma resolve_logical_failed:
  "sysctl_int k ''hw.logicalcpu_max'' = IntErr e \<Longrightarrow>
   resolve_structured_processors k facts =
     (case sysctl_int k ''hw.physicalcpu_max'' of
        IntErr e' \<Rightarrow> Some facts
      | IntOk p \<Rightarrow> Some (collection_add fact_processors
          (map_value (map_value_add ''physicalcount'' (integer_value (sint p)) fmempty)) facts))"
  by (simp add: resolve_structured_processors_def sysctlbyname_int_def map_value_empty_def
      map_value_add_def split: int_reply.splits)

lemma resolve_logical_nonpositive:
  "sysctl_int k ''hw.logicalcpu_max'' = IntOk n \<Longrightarrow> \<not> 0 <s n \<Longrightarrow>
   resolve_structured_processors k facts =
     Some (collection_add fact_processors (map_value
       (case sysctl_int k ''hw.physicalcpu_max'' of
          IntErr e' \<Rightarrow> map_value_add ''count'' (integer_value (sint n)) fmempty
        | IntOk p \<Rightarrow> map_value_add ''physicalcount'' (integer_value (sint p))
                      (map_value_add ''count'' (integer_value (sint n)) fmempty))) facts)"
  by (simp add: resolve_structured_processors_def sysctlbyname_int_def map_value_empty_def
      map_value_add_def split: int_reply.splits)

lemma resolve_logical_positive:
  "sysctl_int k ''hw.logicalcpu_max'' = IntOk n \<Longrightarrow> 0 <s n \<Longrightarrow>
   resolve_structured_processors k facts =
     (case brand_loop k (replicate 256 NUL) of
        None \<Rightarrow> None
      | Some None \<Rightarrow> Some facts
      | Some (Some b) \<Rightarrow>
          Some (collection_add fact_processors (map_value
            (map_value_add ''models''
              (array_value (replicate (nat (sint n)) (string_value (c_string b))))
              (case sysctl_int k ''hw.physicalcpu_max'' of
                 IntErr e' \<Rightarrow> map_value_add ''count'' (integer_value (sint n)) fmempty
               | IntOk p \<Rightarrow> map_value_add ''physicalcount'' (integer_value (sint p))
                      (map_value_add ''count'' (integer_value (sint n)) fmempty)))) facts))"
  apply (simp add: resolve_structured_processors_def sysctlbyname_int_def map_value_empty_def
      map_value_add_def for_loop_replicate split: int_reply.splits option.splits)
  apply (auto simp: word_sless_alt Let_def map_value_add_def)
  done

lemma resolve_ignores_brand:
  assumes "sysctl_int k ''hw.logicalcpu_max'' = IntErr e \<or>
           (\<exists>n. sysctl_int k ''hw.logicalcpu_max'' = IntOk n \<and> \<not> 0 <s n)"
  shows "resolve_structured_processors (k\<lparr>sysctl_str := f\<rparr>) facts =
         resolve_structured_processors k facts"
  using assms
  by (auto simp: resolve_logical_failed resolve_logical_nonpositive)


subsection \<open>The example kernels\<close>

lemma make_kernel_simps:
  "sysctl_int (make_kernel l p b) ''hw.logicalcpu_max'' = l"
  "sysctl_int (make_kernel l p b) ''hw.physicalcpu_max'' = p"
  "sysctl_str (make_kernel l p b) ''machdep.cpu.brand_string'' = b"
  by (simp_all add: make_kernel_def)

lemma four_positive: "0 <s (4 :: 32 word)"
  by (simp add: word_sless_alt)

lemma errno_distinct: "EPERM \<noteq> ENOMEM" "ENOENT \<noteq> ENOMEM"
  by (simp_all add: EPERM_def ENOENT_def ENOMEM_def)

lemma some_facts_lookup: "fmlookup some_facts ''processors'' = None"
  by (simp add: some_facts_def collection_add_def)


lemma added_differs: "collection_add ''processors'' v some_facts \<noteq> some_facts"
proof
  assume "collection_add ''processors'' v some_facts = some_facts"
  then have "fmlookup (collection_add ''processors'' v some_facts) ''processors'' =
      fmlookup some_facts ''processors''"
    by simp
  then show False
    by (simp add: collection_add_def some_facts_lookup)
qed

lemma no_logical_kernel_resolved:
  "resolve_structured_processors no_logical_kernel facts =
     Some (collection_add ''processors''
       (map_value (fmupd ''physicalcount'' (integer_value 2) fmempty)) facts)"
proof -
  have "sysctl_int no_logical_kernel ''hw.logicalcpu_max'' = IntErr ENOENT"
    by (simp add: no_logical_kernel_def make_kernel_simps)
  moreover have "sysctl_int no_logical_kernel ''hw.physicalcpu_max'' = IntOk 2"
    by (simp add: no_logical_kernel_def make_kernel_simps)
  ultimately show ?thesis
    by (simp add: resolve_logical_failed map_value_add_def fact_processors_def)
qed

lemma zero_kernel_resolved:
  "resolve_structured_processors zero_kernel facts =
     Some (collection_add ''processors''
       (map_value (fmupd ''physicalcount'' (integer_value 2)
         (fmupd ''count'' (integer_value 0) fmempty))) facts)"
proof -
  have "sysctl_int zero_kernel ''hw.logicalcpu_max'' = IntOk 0"
    by (simp add: zero_kernel_def make_kernel_simps)
  moreover have "sysctl_int zero_kernel ''hw.physicalcpu_max'' = IntOk 2"
    by (simp add: zero_kernel_def make_kernel_simps)
  ultimately show ?thesis
    by (simp add: resolve_logical_nonpositive map_value_add_def fact_processors_def)
qed

lemma no_physical_kernel_resolved:
  "resolve_structured_processors no_physical_kernel facts =
     Some (collection_add ''processors'' (map_value
       (fmupd ''models'' (array_value (replicate 4 (string_value ''Example CPU'')))
         (fmupd ''count'' (integer_value 4) fmempty))) facts)"
proof -
  have "sysctl_str no_physical_kernel ''machdep.cpu.brand_string'' (256 * 2 ^ 0) =
      StrOk (''Example CPU'' @ [NUL])"
    by (simp add: no_physical_kernel_def make_kernel_simps stored_string_def)
  then have "brand_loop no_physical_kernel (replicate 256 NUL) =
      Some (Some (resize (min (length (''Example CPU'' @ [NUL])) (256 * 2 ^ 0) + 1)
        (overwrite (''Example CPU'' @ [NUL]) (replicate (256 * 2 ^ 0) NUL))))"
    using brand_loop_stops [of 0 no_physical_kernel] by simp
  also have "resize (min (length (''Example CPU'' @ [NUL])) (256 * 2 ^ 0) + 1)
        (overwrite (''Example CPU'' @ [NUL]) (replicate (256 * 2 ^ 0) NUL)) =
      (''Example CPU'' @ [NUL]) @ [NUL]"
    by (rule buffer_after_copy) simp
  finally have "brand_loop no_physical_kernel (replicate 256 NUL) =
      Some (Some ((''Example CPU'' @ [NUL]) @ [NUL]))" .
  moreover have "c_string ((''Example CPU'' @ [NUL]) @ [NUL]) = ''Example CPU''"
    by (simp add: c_string_def NUL_def)
  moreover have "sysctl_int no_physical_kernel ''hw.logicalcpu_max'' = IntOk 4"
    by (simp add: no_physical_kernel_def make_kernel_simps)
  moreover have "sysctl_int no_physical_kernel ''hw.physicalcpu_max'' = IntErr ENOENT"
    by (simp add: no_physical_kernel_def make_kernel_simps)
  ultimately show ?thesis
    using four_positive
    by (simp add: resolve_logical_positive map_value_add_def fact_processors_def)
qed


section \<open>The resolver with an allocator\<close>

subsection \<open>Buffers and the allocator\<close>

text \<open>
  After a successful copy into a fresh buffer of \<open>n\<close> bytes the vector holds the bytes that
  fitted and one zero byte.
\<close>

lemma buffer_after_any_copy:
  "resize (min (length d) n + 1) (overwrite d (replicate n NUL)) = take n d @ [NUL]"
proof (cases "length d < n")
  case True
  then show ?thesis by (simp add: resize_def overwrite_def min_def)
next
  case False
  then show ?thesis by (simp add: resize_def overwrite_def min_def)
qed

lemma buffer_after_any_copy_Suc:
  "resize (Suc (min (length d) n)) (overwrite d (replicate n NUL)) = take n d @ [NUL]"
  using buffer_after_any_copy [of d n] by simp

lemma c_string_copy: "c_string (take n d @ [NUL]) = takeWhile (\<lambda>c. c \<noteq> NUL) (take n d)"
  by (rule c_string_terminated)

lemma length_overwrite: "length (overwrite d b) = length b"
  by (simp add: overwrite_def)

lemma sizes_increase: "i \<le> j \<Longrightarrow> (256::nat) * 2 ^ i \<le> 256 * 2 ^ j"
  by (simp add: power_increasing)

subsection \<open>One pass of the retry loop\<close>

lemma loop_body_mem_ok:
  assumes "sysctl_str k ''machdep.cpu.brand_string'' n = StrOk d"
  shows "loop_body_mem a k (replicate n NUL) =
    (if n \<le> length d \<and> largest_vector a \<le> n then Inl bad_alloc
     else Inr (Break (take n d @ [NUL])))"
proof -
  have grows: "length (overwrite d (replicate n NUL)) < min (length d) n + 1 \<longleftrightarrow> n \<le> length d"
    by (auto simp: length_overwrite min_def)
  have limit: "n \<le> length d \<Longrightarrow> largest_vector a < min (length d) n + 1 \<longleftrightarrow> largest_vector a \<le> n"
    by (auto simp: min_def)
  have "vector_resize a (min (length d) n + 1) (overwrite d (replicate n NUL)) =
      (if n \<le> length d \<and> largest_vector a \<le> n then Inl bad_alloc
       else Inr (take n d @ [NUL]))"
    unfolding vector_resize_def buffer_after_any_copy grows
    using limit by auto
  with assms show ?thesis
    by (simp add: loop_body_mem_def sysctlbyname_str_def)
qed

lemma loop_body_mem_other:
  "sysctl_str k ''machdep.cpu.brand_string'' (length b) = StrErr e \<Longrightarrow> e \<noteq> ENOMEM \<Longrightarrow>
   loop_body_mem a k b = Inr Return"
  by (simp add: loop_body_mem_def sysctlbyname_str_def)

lemma loop_body_mem_enomem:
  assumes "sysctl_str k ''machdep.cpu.brand_string'' n = StrErr ENOMEM" and "0 < n"
  shows "loop_body_mem a k (replicate n NUL) =
    (if largest_vector a < n * 2 then Inl bad_alloc else Inr (Again (replicate (n * 2) NUL)))"
  using assms
  by (simp add: loop_body_mem_def sysctlbyname_str_def vector_resize_def resize_zeros)

subsection \<open>The retry loop\<close>

lemma brand_loop_mem_Inl: "loop_body_mem a k b = Inl e \<Longrightarrow> brand_loop_mem a k b = Some (Inl e)"
  by (subst brand_loop_mem.simps) simp

lemma brand_loop_mem_Break:
  "loop_body_mem a k b = Inr (Break b') \<Longrightarrow> brand_loop_mem a k b = Some (Inr (Some b'))"
  by (subst brand_loop_mem.simps) simp

lemma brand_loop_mem_Return:
  "loop_body_mem a k b = Inr Return \<Longrightarrow> brand_loop_mem a k b = Some (Inr None)"
  by (subst brand_loop_mem.simps) simp

lemma brand_loop_mem_Again:
  "loop_body_mem a k b = Inr (Again b') \<Longrightarrow> brand_loop_mem a k b = brand_loop_mem a k b'"
  by (subst brand_loop_mem.simps) simp

lemma brand_loop_mem_retries:
  "(\<forall>j<r. sysctl_str k ''machdep.cpu.brand_string'' (256 * 2 ^ j) = StrErr ENOMEM \<and>
           256 * 2 ^ Suc j \<le> largest_vector a) \<Longrightarrow>
   brand_loop_mem a k (replicate 256 NUL) = brand_loop_mem a k (replicate (256 * 2 ^ r) NUL)"
proof (induction r)
  case 0
  show ?case by simp
next
  case (Suc r)
  let ?n = "256 * 2 ^ r :: nat"
  from Suc.prems have "sysctl_str k ''machdep.cpu.brand_string'' ?n = StrErr ENOMEM"
    and "?n * 2 \<le> largest_vector a"
    by (simp_all add: mult.commute)
  then have "loop_body_mem a k (replicate ?n NUL) = Inr (Again (replicate (?n * 2) NUL))"
    by (simp add: loop_body_mem_enomem)
  then have "brand_loop_mem a k (replicate ?n NUL) = brand_loop_mem a k (replicate (?n * 2) NUL)"
    by (rule brand_loop_mem_Again)
  with Suc show ?case by (simp add: mult.commute)
qed

text \<open>
  The loop ends at the first size at which the kernel answers anything but the
  insufficient-buffer error, or at which the allocator refuses the next buffer.
\<close>

lemma brand_loop_mem_stops:
  assumes "\<forall>j<r. sysctl_str k ''machdep.cpu.brand_string'' (256 * 2 ^ j) = StrErr ENOMEM \<and>
                  256 * 2 ^ Suc j \<le> largest_vector a"
    and "sysctl_str k ''machdep.cpu.brand_string'' (256 * 2 ^ r) = StrErr ENOMEM \<longrightarrow>
         largest_vector a < 256 * 2 ^ Suc r"
  shows "brand_loop_mem a k (replicate 256 NUL) =
    Some (case sysctl_str k ''machdep.cpu.brand_string'' (256 * 2 ^ r) of
            StrOk d \<Rightarrow>
              if 256 * 2 ^ r \<le> length d \<and> largest_vector a \<le> 256 * 2 ^ r then Inl bad_alloc
              else Inr (Some (take (256 * 2 ^ r) d @ [NUL]))
          | StrErr e \<Rightarrow> if e \<noteq> ENOMEM then Inr None else Inl bad_alloc)"
proof -
  let ?n = "256 * 2 ^ r :: nat"
  have eq: "brand_loop_mem a k (replicate 256 NUL) = brand_loop_mem a k (replicate ?n NUL)"
    using assms(1) by (rule brand_loop_mem_retries)
  show ?thesis
  proof (cases "sysctl_str k ''machdep.cpu.brand_string'' ?n")
    case (StrOk d)
    then show ?thesis
      using eq loop_body_mem_ok [OF StrOk, of a]
      by (simp add: brand_loop_mem_Inl brand_loop_mem_Break)
  next
    case (StrErr e)
    show ?thesis
    proof (cases "e = ENOMEM")
      case True
      with StrErr assms(2) have "largest_vector a < ?n * 2" by (simp add: mult.commute)
      moreover from StrErr True have "sysctl_str k ''machdep.cpu.brand_string'' ?n = StrErr ENOMEM"
        by simp
      ultimately have "loop_body_mem a k (replicate ?n NUL) = Inl bad_alloc"
        by (simp add: loop_body_mem_enomem)
      then show ?thesis using eq StrErr True by (simp add: brand_loop_mem_Inl)
    next
      case False
      with StrErr have "loop_body_mem a k (replicate ?n NUL) = Inr Return"
        by (intro loop_body_mem_other [where e = e]) simp_all
      then show ?thesis using eq StrErr False by (simp add: brand_loop_mem_Return)
    qed
  qed
qed

text \<open>Such a size exists, because the allocator's bound is a number.\<close>

lemma last_pass:
  obtains r where
    "\<forall>j<r. sysctl_str k ''machdep.cpu.brand_string'' (256 * 2 ^ j) = StrErr ENOMEM \<and>
            256 * 2 ^ Suc j \<le> largest_vector a"
    and "sysctl_str k ''machdep.cpu.brand_string'' (256 * 2 ^ r) = StrErr ENOMEM \<longrightarrow>
         largest_vector a < 256 * 2 ^ Suc r"
proof -
  let ?Q = "\<lambda>r. sysctl_str k ''machdep.cpu.brand_string'' (256 * 2 ^ r) \<noteq> StrErr ENOMEM \<or>
      largest_vector a < 256 * 2 ^ Suc r"
  have "largest_vector a < 2 ^ largest_vector a"
    by (rule less_exp)
  also have "\<dots> \<le> 256 * 2 ^ Suc (largest_vector a)"
    by simp
  finally have "?Q (largest_vector a)" by blast
  then have "\<exists>r. ?Q r" ..
  then obtain r where "?Q r \<and> (\<forall>j<r. \<not> ?Q j)"
    using exists_least_iff [of ?Q] by blast
  then show thesis
    using that [of r] by (auto simp: not_less)
qed

lemma persistent_enomem_loop:
  assumes "\<forall>sz. sysctl_str k ''machdep.cpu.brand_string'' sz = StrErr ENOMEM"
  shows "brand_loop_mem a k (replicate 256 NUL) = Some (Inl bad_alloc)"
proof -
  obtain r where
    retries: "\<forall>j<r. sysctl_str k ''machdep.cpu.brand_string'' (256 * 2 ^ j) = StrErr ENOMEM \<and>
            256 * 2 ^ Suc j \<le> largest_vector a"
    and last: "sysctl_str k ''machdep.cpu.brand_string'' (256 * 2 ^ r) = StrErr ENOMEM \<longrightarrow>
         largest_vector a < 256 * 2 ^ Suc r"
    by (rule last_pass)
  from brand_loop_mem_stops [OF retries last] assms show ?thesis
    by simp
qed

subsection \<open>The \<^verbatim>\<open>for\<close> loop\<close>

lemma for_loop_mem_result:
  "for_loop_mem a i n description processor_list =
     (if i < n \<and> most_entries a < length processor_list + nat (n - i) then Inl bad_alloc
      else Inr (processor_list @ replicate (nat (n - i)) (string_value description)))"
proof (induction a i n description processor_list rule: for_loop_mem.induct)
  case (1 a i n description processor_list)
  show ?case
  proof (cases "i < n")
    case False
    then show ?thesis by (subst for_loop_mem.simps) simp
  next
    case True
    then have k: "nat (n - i) = Suc (nat (n - (i + 1)))" by simp
    show ?thesis
    proof (cases "most_entries a \<le> length processor_list")
      case full: True
      with True show ?thesis by (subst for_loop_mem.simps) (simp add: k)
    next
      case False
      with True "1.IH" show ?thesis
        by (subst for_loop_mem.simps) (auto simp: k replicate_append_same)
    qed
  qed
qed

subsection \<open>The routine\<close>


lemma resolve_mem_positive:
  assumes "sysctl_int k ''hw.logicalcpu_max'' = IntOk n" and "0 <s n"
  shows "resolve_structured_processors_mem a k facts =
     (if largest_vector a < 256 then Some (Inl bad_alloc)
      else case brand_loop_mem a k (replicate 256 NUL) of
        None \<Rightarrow> None
      | Some (Inl e) \<Rightarrow> Some (Inl e)
      | Some (Inr None) \<Rightarrow> Some (Inr facts)
      | Some (Inr (Some b)) \<Rightarrow>
          if most_entries a < nat (sint n) then Some (Inl bad_alloc)
          else Some (Inr (collection_add fact_processors (map_value
            (map_value_add ''models''
              (array_value (replicate (nat (sint n)) (string_value (c_string b))))
              (case sysctl_int k ''hw.physicalcpu_max'' of
                 IntErr e' \<Rightarrow> map_value_add ''count'' (integer_value (sint n)) fmempty
               | IntOk p \<Rightarrow> map_value_add ''physicalcount'' (integer_value (sint p))
                      (map_value_add ''count'' (integer_value (sint n)) fmempty)))) facts)))"
proof -
  have pos: "0 < sint n" using assms(2) by (simp add: word_sless_alt)
  have first: "vector_resize a 256 [] =
      (if largest_vector a < 256 then Inl bad_alloc else Inr (replicate 256 NUL))"
    by (simp add: vector_resize_def resize_def)
  have list: "for_loop_mem a 0 (sint n) d [] =
      (if most_entries a < nat (sint n) then Inl bad_alloc
       else Inr (replicate (nat (sint n)) (string_value d)))" for d
    using pos by (simp add: for_loop_mem_result)
  show ?thesis
    using assms pos
    by (cases "sysctl_int k ''hw.physicalcpu_max''")
       (auto simp: resolve_structured_processors_mem_def sysctlbyname_int_def first list Let_def
         map_value_empty_def map_value_add_def split: option.splits sum.splits)
qed

lemma resolve_mem_result:
  assumes l: "sysctl_int k ''hw.logicalcpu_max'' = IntOk n" and pos: "0 <s n"
    and first: "256 \<le> largest_vector a"
    and retries: "\<forall>j<r. sysctl_str k ''machdep.cpu.brand_string'' (256 * 2 ^ j) = StrErr ENOMEM \<and>
                  256 * 2 ^ Suc j \<le> largest_vector a"
    and last: "sysctl_str k ''machdep.cpu.brand_string'' (256 * 2 ^ r) = StrErr ENOMEM \<longrightarrow>
         largest_vector a < 256 * 2 ^ Suc r"
  shows "resolve_structured_processors_mem a k facts =
    Some (case sysctl_str k ''machdep.cpu.brand_string'' (256 * 2 ^ r) of
       StrOk d \<Rightarrow>
         if 256 * 2 ^ r \<le> length d \<and> largest_vector a \<le> 256 * 2 ^ r \<or>
            most_entries a < nat (sint n)
         then Inl bad_alloc
         else Inr (collection_add ''processors'' (map_value
            (map_value_add ''models''
              (array_value (replicate (nat (sint n))
                 (string_value (takeWhile (\<lambda>c. c \<noteq> NUL) (take (256 * 2 ^ r) d)))))
              (case sysctl_int k ''hw.physicalcpu_max'' of
                 IntErr e' \<Rightarrow> map_value_add ''count'' (integer_value (sint n)) fmempty
               | IntOk p \<Rightarrow> map_value_add ''physicalcount'' (integer_value (sint p))
                      (map_value_add ''count'' (integer_value (sint n)) fmempty)))) facts)
     | StrErr e \<Rightarrow> if e \<noteq> ENOMEM then Inr facts else Inl bad_alloc)"
proof -
  note loop = brand_loop_mem_stops [OF retries last]
  show ?thesis
  proof (cases "sysctl_str k ''machdep.cpu.brand_string'' (256 * 2 ^ r)")
    case (StrErr e)
    with loop first show ?thesis
      by (simp add: resolve_mem_positive [OF l pos])
  next
    case (StrOk d)
    with loop first show ?thesis
      by (simp add: resolve_mem_positive [OF l pos] c_string_copy fact_processors_def)
  qed
qed


text \<open>
  The routine without an allocator is the routine whose allocator grants what the run asks
  for: without the retry loop the two agree for every allocator, and the two ends of the
  retry loop come out the same when the buffers and the list are granted.
\<close>

lemma mem_retries_granted:
  assumes "\<forall>j<r. sysctl_str k ''machdep.cpu.brand_string'' (256 * 2 ^ j) = StrErr ENOMEM"
    and "256 * 2 ^ r \<le> largest_vector a"
  shows "\<forall>j<r. sysctl_str k ''machdep.cpu.brand_string'' (256 * 2 ^ j) = StrErr ENOMEM \<and>
                256 * 2 ^ Suc j \<le> largest_vector a"
proof (intro allI impI conjI)
  fix j
  assume "j < r"
  with assms(1) show "sysctl_str k ''machdep.cpu.brand_string'' (256 * 2 ^ j) = StrErr ENOMEM"
    by blast
  from \<open>j < r\<close> have "Suc j \<le> r" by simp
  then have "(256::nat) * 2 ^ Suc j \<le> 256 * 2 ^ r" by (rule sizes_increase)
  with assms(2) show "256 * 2 ^ Suc j \<le> largest_vector a" by linarith
qed

lemma mem_non_buffer_error:
  assumes "sysctl_int k ''hw.logicalcpu_max'' = IntOk n" and "0 <s n"
    and "\<forall>j<r. sysctl_str k ''machdep.cpu.brand_string'' (256 * 2 ^ j) = StrErr ENOMEM"
    and "sysctl_str k ''machdep.cpu.brand_string'' (256 * 2 ^ r) = StrErr e"
    and "e \<noteq> ENOMEM"
    and "256 * 2 ^ r \<le> largest_vector a"
  shows "resolve_structured_processors_mem a k facts = Some (Inr facts)"
proof -
  have "(256::nat) \<le> 256 * 2 ^ r" by simp
  with assms(6) have first: "256 \<le> largest_vector a" by linarith
  have last: "sysctl_str k ''machdep.cpu.brand_string'' (256 * 2 ^ r) = StrErr ENOMEM \<longrightarrow>
      largest_vector a < 256 * 2 ^ Suc r"
    using assms(4,5) by simp
  from resolve_mem_result [OF assms(1,2) first mem_retries_granted [OF assms(3,6)] last, of facts]
    assms(4,5) show ?thesis by simp
qed

lemma mem_models:
  assumes "sysctl_int k ''hw.logicalcpu_max'' = IntOk n" and "0 <s n"
    and "\<forall>j<r. sysctl_str k ''machdep.cpu.brand_string'' (256 * 2 ^ j) = StrErr ENOMEM"
    and "sysctl_str k ''machdep.cpu.brand_string'' (256 * 2 ^ r) = StrOk d"
    and "length d \<le> 256 * 2 ^ r"
    and "s = takeWhile (\<lambda>c. c \<noteq> NUL) d"
    and "256 * 2 ^ r < largest_vector a" and "nat (sint n) \<le> most_entries a"
  shows "\<exists>m. resolve_structured_processors_mem a k facts =
              Some (Inr (collection_add ''processors'' (map_value m) facts)) \<and>
            fmlookup m ''models'' =
              Some (array_value (replicate (nat (sint n)) (string_value s)))"
proof -
  have "(256::nat) \<le> 256 * 2 ^ r" by simp
  with assms(7) have first: "256 \<le> largest_vector a" by linarith
  from assms(7) have fits: "256 * 2 ^ r \<le> largest_vector a" by simp
  have last: "sysctl_str k ''machdep.cpu.brand_string'' (256 * 2 ^ r) = StrErr ENOMEM \<longrightarrow>
      largest_vector a < 256 * 2 ^ Suc r"
    using assms(4) by simp
  let ?m = "map_value_add ''models'' (array_value (replicate (nat (sint n)) (string_value s)))
          (case sysctl_int k ''hw.physicalcpu_max'' of
             IntErr e' \<Rightarrow> map_value_add ''count'' (integer_value (sint n)) fmempty
           | IntOk p \<Rightarrow> map_value_add ''physicalcount'' (integer_value (sint p))
                      (map_value_add ''count'' (integer_value (sint n)) fmempty))"
  from resolve_mem_result [OF assms(1,2) first mem_retries_granted [OF assms(3) fits] last, of facts]
    assms(4-8)
  have "resolve_structured_processors_mem a k facts =
      Some (Inr (collection_add ''processors'' (map_value ?m) facts))"
    by simp
  moreover have "fmlookup ?m ''models'' =
      Some (array_value (replicate (nat (sint n)) (string_value s)))"
    by (simp add: map_value_add_def)
  ultimately show ?thesis
    by (intro exI [of _ ?m]) simp
qed


subsection \<open>The examples\<close>

lemma long_brand_reply:
  "sysctl_str long_brand_kernel ''machdep.cpu.brand_string'' sz =
     (if 600 \<le> sz then StrOk (replicate 599 CHR ''x'' @ [NUL]) else StrErr ENOMEM)"
  by (simp add: long_brand_kernel_def make_kernel_simps stored_string_def)

lemma persistent_enomem_reply:
  "sysctl_str persistent_enomem_kernel ''machdep.cpu.brand_string'' sz = StrErr ENOMEM"
  by (simp add: persistent_enomem_kernel_def make_kernel_simps)



section \<open>The claims of the specification\<close>

text \<open>
  Claim C6. If the logical-count query and the physical-count query both fail, the record
  has no field, whatever the kernel would answer to the model-string query (which is then
  not asked), and no "processors" record is added: the collection comes back as it was.
\<close>

theorem all_queries_failed_adds_nothing:
  assumes "sysctl_int k ''hw.logicalcpu_max'' = IntErr e"
    and "sysctl_int k ''hw.physicalcpu_max'' = IntErr e'"
  shows "resolve_structured_processors k facts = Some facts"
  using assms by (simp add: resolve_logical_failed)

theorem all_queries_failed_adds_nothing_witness:
  "sysctl_int no_sysctl_kernel ''hw.logicalcpu_max'' = IntErr ENOENT \<and>
   sysctl_int no_sysctl_kernel ''hw.physicalcpu_max'' = IntErr ENOENT \<and>
   sysctl_str no_sysctl_kernel ''machdep.cpu.brand_string'' 256 = StrErr ENOENT \<and>
   resolve_structured_processors no_sysctl_kernel some_facts = Some some_facts"
proof -
  have l: "sysctl_int no_sysctl_kernel ''hw.logicalcpu_max'' = IntErr ENOENT"
    by (simp add: no_sysctl_kernel_def make_kernel_simps)
  have p: "sysctl_int no_sysctl_kernel ''hw.physicalcpu_max'' = IntErr ENOENT"
    by (simp add: no_sysctl_kernel_def make_kernel_simps)
  have "sysctl_str no_sysctl_kernel ''machdep.cpu.brand_string'' 256 = StrErr ENOENT"
    by (simp add: no_sysctl_kernel_def make_kernel_simps)
  with l p all_queries_failed_adds_nothing [OF l p, of some_facts] show ?thesis
    by simp
qed

text \<open>
  Claim C1. If the model-string query is asked (the logical count is positive) and, after
  any number of insufficient-buffer answers, fails with another error, the routine returns
  at once and the collection comes back as it was: no "processors" record is added, although
  the count field, and the physicalcount field if that query succeeded, had been built.
\<close>

theorem non_buffer_error_discards_record:
  assumes "sysctl_int k ''hw.logicalcpu_max'' = IntOk n" and "0 <s n"
    and "\<forall>j<r. sysctl_str k ''machdep.cpu.brand_string'' (256 * 2 ^ j) = StrErr ENOMEM"
    and "sysctl_str k ''machdep.cpu.brand_string'' (256 * 2 ^ r) = StrErr e"
    and "e \<noteq> ENOMEM"
  shows "resolve_structured_processors k facts = Some facts"
proof -
  have "brand_loop k (replicate 256 NUL) = Some None"
    using brand_loop_stops [OF assms(3)] assms(4,5) by simp
  then show ?thesis
    using assms(1,2) by (simp add: resolve_logical_positive)
qed

theorem non_buffer_error_discards_record_witness:
  "sysctl_int denied_kernel ''hw.logicalcpu_max'' = IntOk 4 \<and>
   sysctl_int denied_kernel ''hw.physicalcpu_max'' = IntOk 2 \<and>
   sysctl_str denied_kernel ''machdep.cpu.brand_string'' 256 = StrErr EPERM \<and>
   EPERM \<noteq> ENOMEM \<and>
   resolve_structured_processors denied_kernel some_facts = Some some_facts"
proof -
  have l: "sysctl_int denied_kernel ''hw.logicalcpu_max'' = IntOk 4"
    by (simp add: denied_kernel_def make_kernel_simps)
  have p: "sysctl_int denied_kernel ''hw.physicalcpu_max'' = IntOk 2"
    by (simp add: denied_kernel_def make_kernel_simps)
  have none: "\<forall>j<0. sysctl_str denied_kernel ''machdep.cpu.brand_string'' (256 * 2 ^ j) = StrErr ENOMEM"
    by simp
  have b: "sysctl_str denied_kernel ''machdep.cpu.brand_string'' (256 * 2 ^ 0) = StrErr EPERM"
    by (simp add: denied_kernel_def make_kernel_simps)
  have "resolve_structured_processors denied_kernel some_facts = Some some_facts"
    using non_buffer_error_discards_record [OF l four_positive none b errno_distinct(1)] .
  with l p b errno_distinct(1) show ?thesis by simp
qed



text \<open>
  Claim C4. If the logical-count query fails, the record that is added, if one is added,
  has no \<open>count\<close> field; if the physical-count query fails, the record that is added, if
  one is added, has no \<open>physicalcount\<close> field. Nothing is assumed about the other two
  queries of either kernel.
\<close>

theorem failed_count_query_omits_field:
  "(sysctl_int k ''hw.logicalcpu_max'' = IntErr e \<longrightarrow>
      resolve_structured_processors k facts = Some facts \<or>
      (\<exists>m. resolve_structured_processors k facts =
              Some (collection_add ''processors'' (map_value m) facts) \<and>
           fmlookup m ''count'' = None)) \<and>
   (sysctl_int k' ''hw.physicalcpu_max'' = IntErr e' \<longrightarrow>
      resolve_structured_processors k' facts' = None \<or>
      resolve_structured_processors k' facts' = Some facts' \<or>
      (\<exists>m. resolve_structured_processors k' facts' =
              Some (collection_add ''processors'' (map_value m) facts') \<and>
           fmlookup m ''physicalcount'' = None))"
proof (intro conjI impI)
  assume "sysctl_int k ''hw.logicalcpu_max'' = IntErr e"
  then show "resolve_structured_processors k facts = Some facts \<or>
      (\<exists>m. resolve_structured_processors k facts =
              Some (collection_add ''processors'' (map_value m) facts) \<and>
           fmlookup m ''count'' = None)"
    by (cases "sysctl_int k ''hw.physicalcpu_max''")
       (force simp: resolve_logical_failed map_value_add_def fact_processors_def)+
next
  assume phys: "sysctl_int k' ''hw.physicalcpu_max'' = IntErr e'"
  show "resolve_structured_processors k' facts' = None \<or>
      resolve_structured_processors k' facts' = Some facts' \<or>
      (\<exists>m. resolve_structured_processors k' facts' =
              Some (collection_add ''processors'' (map_value m) facts') \<and>
           fmlookup m ''physicalcount'' = None)"
  proof (cases "sysctl_int k' ''hw.logicalcpu_max''")
    case (IntErr e'')
    with phys show ?thesis by (simp add: resolve_logical_failed)
  next
    case (IntOk n)
    show ?thesis
    proof (cases "0 <s n")
      case False
      with IntOk phys show ?thesis
        by (force simp: resolve_logical_nonpositive map_value_add_def fact_processors_def)
    next
      case True
      with IntOk phys show ?thesis
        by (force simp: resolve_logical_positive map_value_add_def fact_processors_def
            split: option.splits)
    qed
  qed
qed

theorem failed_count_query_omits_field_witness:
  "sysctl_int no_logical_kernel ''hw.logicalcpu_max'' = IntErr ENOENT \<and>
   (\<exists>m. resolve_structured_processors no_logical_kernel some_facts =
           Some (collection_add ''processors'' (map_value m) some_facts) \<and>
        fmlookup m ''count'' = None) \<and>
   sysctl_int no_physical_kernel ''hw.physicalcpu_max'' = IntErr ENOENT \<and>
   (\<exists>m. resolve_structured_processors no_physical_kernel some_facts =
           Some (collection_add ''processors'' (map_value m) some_facts) \<and>
        fmlookup m ''physicalcount'' = None)"
proof -
  have l: "sysctl_int no_logical_kernel ''hw.logicalcpu_max'' = IntErr ENOENT"
    by (simp add: no_logical_kernel_def make_kernel_simps)
  have p: "sysctl_int no_physical_kernel ''hw.physicalcpu_max'' = IntErr ENOENT"
    by (simp add: no_physical_kernel_def make_kernel_simps)
  have "resolve_structured_processors no_logical_kernel some_facts \<noteq> Some some_facts"
    by (simp add: no_logical_kernel_resolved added_differs)
  moreover have "resolve_structured_processors no_physical_kernel some_facts \<noteq> None"
    "resolve_structured_processors no_physical_kernel some_facts \<noteq> Some some_facts"
    by (simp_all add: no_physical_kernel_resolved added_differs)
  ultimately show ?thesis
    using l p
      failed_count_query_omits_field
        [of no_logical_kernel ENOENT some_facts no_physical_kernel ENOENT some_facts]
    by auto
qed

text \<open>
  Claim C5. If the logical count resolves to 0, the record is added without a \<open>models\<close>
  field, and the model-string query is not asked: whatever the kernel would answer to a
  string query, the routine does the same.
\<close>

theorem zero_logical_count_skips_models:
  assumes "sysctl_int k ''hw.logicalcpu_max'' = IntOk 0"
  shows "(\<exists>m. resolve_structured_processors k facts =
               Some (collection_add ''processors'' (map_value m) facts) \<and>
             fmlookup m ''models'' = None) \<and>
         (\<forall>f. resolve_structured_processors (k\<lparr>sysctl_str := f\<rparr>) facts =
               resolve_structured_processors k facts)"
proof
  show "\<exists>m. resolve_structured_processors k facts =
               Some (collection_add ''processors'' (map_value m) facts) \<and>
             fmlookup m ''models'' = None"
    using assms
    by (cases "sysctl_int k ''hw.physicalcpu_max''")
       (force simp: resolve_logical_nonpositive map_value_add_def fact_processors_def)+
  show "\<forall>f. resolve_structured_processors (k\<lparr>sysctl_str := f\<rparr>) facts =
               resolve_structured_processors k facts"
    using assms by (simp add: resolve_ignores_brand)
qed

theorem zero_logical_count_skips_models_witness:
  "sysctl_int zero_kernel ''hw.logicalcpu_max'' = IntOk 0 \<and>
   sysctl_str zero_kernel ''machdep.cpu.brand_string'' 256 = StrOk (''Example CPU'' @ [NUL]) \<and>
   resolve_structured_processors zero_kernel some_facts =
     Some (collection_add ''processors''
       (map_value (fmupd ''physicalcount'' (integer_value 2)
         (fmupd ''count'' (integer_value 0) fmempty))) some_facts) \<and>
   (\<exists>m. resolve_structured_processors zero_kernel some_facts =
           Some (collection_add ''processors'' (map_value m) some_facts) \<and>
        fmlookup m ''models'' = None) \<and>
   resolve_structured_processors (zero_kernel\<lparr>sysctl_str := \<lambda>name sz. StrErr EPERM\<rparr>) some_facts =
   resolve_structured_processors zero_kernel some_facts"
proof -
  have l: "sysctl_int zero_kernel ''hw.logicalcpu_max'' = IntOk 0"
    by (simp add: zero_kernel_def make_kernel_simps)
  have b: "sysctl_str zero_kernel ''machdep.cpu.brand_string'' 256 =
      StrOk (''Example CPU'' @ [NUL])"
    by (simp add: zero_kernel_def make_kernel_simps stored_string_def)
  show ?thesis
    using l b zero_kernel_resolved [of some_facts]
      zero_logical_count_skips_models [OF l, of some_facts]
    by auto
qed

text \<open>
  Claim C9. If the logical-count query fails, the logical count keeps its initial value 0:
  the model-string query is not asked (whatever the kernel would answer to a string query,
  also a success, the routine does the same) and the record, if one is added, has no
  \<open>models\<close> field.
\<close>

theorem failed_logical_count_skips_models:
  assumes "sysctl_int k ''hw.logicalcpu_max'' = IntErr e"
  shows "(resolve_structured_processors k facts = Some facts \<or>
          (\<exists>m. resolve_structured_processors k facts =
               Some (collection_add ''processors'' (map_value m) facts) \<and>
             fmlookup m ''models'' = None)) \<and>
         (\<forall>f. resolve_structured_processors (k\<lparr>sysctl_str := f\<rparr>) facts =
               resolve_structured_processors k facts)"
proof
  show "resolve_structured_processors k facts = Some facts \<or>
          (\<exists>m. resolve_structured_processors k facts =
               Some (collection_add ''processors'' (map_value m) facts) \<and>
             fmlookup m ''models'' = None)"
    using assms
    by (cases "sysctl_int k ''hw.physicalcpu_max''")
       (force simp: resolve_logical_failed map_value_add_def fact_processors_def)+
  show "\<forall>f. resolve_structured_processors (k\<lparr>sysctl_str := f\<rparr>) facts =
               resolve_structured_processors k facts"
    using assms by (simp add: resolve_ignores_brand)
qed

theorem failed_logical_count_skips_models_witness:
  "sysctl_int no_logical_kernel ''hw.logicalcpu_max'' = IntErr ENOENT \<and>
   sysctl_str no_logical_kernel ''machdep.cpu.brand_string'' 256 = StrOk (''Example CPU'' @ [NUL]) \<and>
   (\<exists>m. resolve_structured_processors no_logical_kernel some_facts =
           Some (collection_add ''processors'' (map_value m) some_facts) \<and>
        fmlookup m ''models'' = None) \<and>
   resolve_structured_processors
     (no_logical_kernel\<lparr>sysctl_str := \<lambda>name sz. StrErr EPERM\<rparr>) some_facts =
   resolve_structured_processors no_logical_kernel some_facts"
proof -
  have l: "sysctl_int no_logical_kernel ''hw.logicalcpu_max'' = IntErr ENOENT"
    by (simp add: no_logical_kernel_def make_kernel_simps)
  have b: "sysctl_str no_logical_kernel ''machdep.cpu.brand_string'' 256 =
      StrOk (''Example CPU'' @ [NUL])"
    by (simp add: no_logical_kernel_def make_kernel_simps stored_string_def)
  have "resolve_structured_processors no_logical_kernel some_facts \<noteq> Some some_facts"
    by (simp add: no_logical_kernel_resolved added_differs)
  then show ?thesis
    using l b failed_logical_count_skips_models [OF l, of some_facts] by auto
qed

text \<open>
  Claim C3, as amended. The retry loop starts on a buffer of 256 bytes and asks the kernel
  with buffers of 256, 512, ... bytes: there is a number \<open>r\<close> of retries such that each of
  the first \<open>r\<close> queries, with \<open>256 * 2 ^ j\<close> bytes, answered the insufficient-buffer error
  and the buffer of twice the size was granted, and the loop is then at the buffer of
  \<open>256 * 2 ^ r\<close> bytes. The answer to the query with that buffer decides how the loop ends:
  a success leaves it by \<^verbatim>\<open>break\<close> with the copied bytes, another error returns from the
  routine, and the insufficient-buffer error can only be the last answer if the allocator
  refuses the buffer of twice the size, and then \<^verbatim>\<open>std::bad_alloc\<close> leaves the routine. The
  routine, for a positive logical count, ends accordingly. On a machine whose allocator
  grants everything the loop ends the same way whenever the last answer is not the
  insufficient-buffer error.
\<close>

theorem retry_loop_doubles_until_answer_or_refusal:
  "\<exists>r. (\<forall>j<r. sysctl_str k ''machdep.cpu.brand_string'' (256 * 2 ^ j) = StrErr ENOMEM \<and>
              256 * 2 ^ Suc j \<le> largest_vector a) \<and>
       (sysctl_str k ''machdep.cpu.brand_string'' (256 * 2 ^ r) = StrErr ENOMEM \<longrightarrow>
          largest_vector a < 256 * 2 ^ Suc r) \<and>
       brand_loop_mem a k (replicate 256 NUL) =
         brand_loop_mem a k (replicate (256 * 2 ^ r) NUL) \<and>
       (sysctl_str k ''machdep.cpu.brand_string'' (256 * 2 ^ r) \<noteq> StrErr ENOMEM \<longrightarrow>
          brand_loop k (replicate 256 NUL) =
            Some (case sysctl_str k ''machdep.cpu.brand_string'' (256 * 2 ^ r) of
               StrOk d \<Rightarrow> Some (take (256 * 2 ^ r) d @ [NUL]) | StrErr e \<Rightarrow> None)) \<and>
       brand_loop_mem a k (replicate 256 NUL) =
         Some (case sysctl_str k ''machdep.cpu.brand_string'' (256 * 2 ^ r) of
            StrOk d \<Rightarrow>
              if 256 * 2 ^ r \<le> length d \<and> largest_vector a \<le> 256 * 2 ^ r then Inl bad_alloc
              else Inr (Some (take (256 * 2 ^ r) d @ [NUL]))
          | StrErr e \<Rightarrow> if e \<noteq> ENOMEM then Inr None else Inl bad_alloc) \<and>
       (\<forall>n. sysctl_int k ''hw.logicalcpu_max'' = IntOk n \<and> 0 <s n \<and> 256 \<le> largest_vector a \<longrightarrow>
          resolve_structured_processors_mem a k facts =
            Some (case sysctl_str k ''machdep.cpu.brand_string'' (256 * 2 ^ r) of
              StrOk d \<Rightarrow>
                if 256 * 2 ^ r \<le> length d \<and> largest_vector a \<le> 256 * 2 ^ r \<or>
                   most_entries a < nat (sint n)
                then Inl bad_alloc
                else Inr (collection_add ''processors'' (map_value
                   (map_value_add ''models''
                     (array_value (replicate (nat (sint n))
                        (string_value (takeWhile (\<lambda>c. c \<noteq> NUL) (take (256 * 2 ^ r) d)))))
                     (case sysctl_int k ''hw.physicalcpu_max'' of
                        IntErr e' \<Rightarrow> map_value_add ''count'' (integer_value (sint n)) fmempty
                      | IntOk p \<Rightarrow> map_value_add ''physicalcount'' (integer_value (sint p))
                             (map_value_add ''count'' (integer_value (sint n)) fmempty)))) facts)
            | StrErr e \<Rightarrow> if e \<noteq> ENOMEM then Inr facts else Inl bad_alloc))"
proof -
  obtain r where
    retries: "\<forall>j<r. sysctl_str k ''machdep.cpu.brand_string'' (256 * 2 ^ j) = StrErr ENOMEM \<and>
            256 * 2 ^ Suc j \<le> largest_vector a"
    and last: "sysctl_str k ''machdep.cpu.brand_string'' (256 * 2 ^ r) = StrErr ENOMEM \<longrightarrow>
         largest_vector a < 256 * 2 ^ Suc r"
    by (rule last_pass)
  show ?thesis
  proof (intro exI [of _ r] conjI)
    show "\<forall>j<r. sysctl_str k ''machdep.cpu.brand_string'' (256 * 2 ^ j) = StrErr ENOMEM \<and>
            256 * 2 ^ Suc j \<le> largest_vector a"
      by (rule retries)
    show "sysctl_str k ''machdep.cpu.brand_string'' (256 * 2 ^ r) = StrErr ENOMEM \<longrightarrow>
        largest_vector a < 256 * 2 ^ Suc r"
      by (rule last)
    show "brand_loop_mem a k (replicate 256 NUL) =
        brand_loop_mem a k (replicate (256 * 2 ^ r) NUL)"
      using retries by (rule brand_loop_mem_retries)
    show "sysctl_str k ''machdep.cpu.brand_string'' (256 * 2 ^ r) \<noteq> StrErr ENOMEM \<longrightarrow>
          brand_loop k (replicate 256 NUL) =
            Some (case sysctl_str k ''machdep.cpu.brand_string'' (256 * 2 ^ r) of
               StrOk d \<Rightarrow> Some (take (256 * 2 ^ r) d @ [NUL]) | StrErr e \<Rightarrow> None)"
    proof
      assume answer: "sysctl_str k ''machdep.cpu.brand_string'' (256 * 2 ^ r) \<noteq> StrErr ENOMEM"
      from retries have
        "\<forall>j<r. sysctl_str k ''machdep.cpu.brand_string'' (256 * 2 ^ j) = StrErr ENOMEM"
        by blast
      from brand_loop_stops [OF this answer] show "brand_loop k (replicate 256 NUL) =
            Some (case sysctl_str k ''machdep.cpu.brand_string'' (256 * 2 ^ r) of
               StrOk d \<Rightarrow> Some (take (256 * 2 ^ r) d @ [NUL]) | StrErr e \<Rightarrow> None)"
        by (cases "sysctl_str k ''machdep.cpu.brand_string'' (256 * 2 ^ r)")
           (simp_all add: buffer_after_any_copy_Suc del: power.simps)
    qed
    show "brand_loop_mem a k (replicate 256 NUL) =
         Some (case sysctl_str k ''machdep.cpu.brand_string'' (256 * 2 ^ r) of
            StrOk d \<Rightarrow>
              if 256 * 2 ^ r \<le> length d \<and> largest_vector a \<le> 256 * 2 ^ r then Inl bad_alloc
              else Inr (Some (take (256 * 2 ^ r) d @ [NUL]))
          | StrErr e \<Rightarrow> if e \<noteq> ENOMEM then Inr None else Inl bad_alloc)"
      using retries last by (rule brand_loop_mem_stops)
    show "\<forall>n. sysctl_int k ''hw.logicalcpu_max'' = IntOk n \<and> 0 <s n \<and> 256 \<le> largest_vector a \<longrightarrow>
          resolve_structured_processors_mem a k facts =
            Some (case sysctl_str k ''machdep.cpu.brand_string'' (256 * 2 ^ r) of
              StrOk d \<Rightarrow>
                if 256 * 2 ^ r \<le> length d \<and> largest_vector a \<le> 256 * 2 ^ r \<or>
                   most_entries a < nat (sint n)
                then Inl bad_alloc
                else Inr (collection_add ''processors'' (map_value
                   (map_value_add ''models''
                     (array_value (replicate (nat (sint n))
                        (string_value (takeWhile (\<lambda>c. c \<noteq> NUL) (take (256 * 2 ^ r) d)))))
                     (case sysctl_int k ''hw.physicalcpu_max'' of
                        IntErr e' \<Rightarrow> map_value_add ''count'' (integer_value (sint n)) fmempty
                      | IntOk p \<Rightarrow> map_value_add ''physicalcount'' (integer_value (sint p))
                             (map_value_add ''count'' (integer_value (sint n)) fmempty)))) facts)
            | StrErr e \<Rightarrow> if e \<noteq> ENOMEM then Inr facts else Inl bad_alloc)"
      using resolve_mem_result [OF _ _ _ retries last] by blast
  qed
qed

theorem retry_loop_doubles_until_answer_or_refusal_witness:
  "sysctl_str long_brand_kernel ''machdep.cpu.brand_string'' 256 = StrErr ENOMEM \<and>
   sysctl_str long_brand_kernel ''machdep.cpu.brand_string'' 512 = StrErr ENOMEM \<and>
   sysctl_str long_brand_kernel ''machdep.cpu.brand_string'' 1024 =
     StrOk (replicate 599 CHR ''x'' @ [NUL]) \<and>
   brand_loop_mem two_gigabytes long_brand_kernel (replicate 256 NUL) =
     Some (Inr (Some ((replicate 599 CHR ''x'' @ [NUL]) @ [NUL])))"
proof -
  let ?reply = "\<lambda>j. sysctl_str long_brand_kernel ''machdep.cpu.brand_string'' (256 * 2 ^ j)"
  from retry_loop_doubles_until_answer_or_refusal [of long_brand_kernel two_gigabytes some_facts] obtain r where
    retries: "\<forall>j<r. ?reply j = StrErr ENOMEM \<and> 256 * 2 ^ Suc j \<le> largest_vector two_gigabytes"
    and last: "?reply r = StrErr ENOMEM \<longrightarrow> largest_vector two_gigabytes < 256 * 2 ^ Suc r"
    and result: "brand_loop_mem two_gigabytes long_brand_kernel (replicate 256 NUL) =
         Some (case ?reply r of
            StrOk d \<Rightarrow>
              if 256 * 2 ^ r \<le> length d \<and> largest_vector two_gigabytes \<le> 256 * 2 ^ r
              then Inl bad_alloc
              else Inr (Some (take (256 * 2 ^ r) d @ [NUL]))
          | StrErr e \<Rightarrow> if e \<noteq> ENOMEM then Inr None else Inl bad_alloc)"
    by blast
  have "\<not> 2 < r"
  proof
    assume "2 < r"
    with retries have "?reply 2 = StrErr ENOMEM" by blast
    then show False by (simp add: long_brand_reply)
  qed
  moreover have "r \<noteq> 0"
  proof
    assume "r = 0"
    with last show False by (simp add: long_brand_reply two_gigabytes_def)
  qed
  moreover have "r \<noteq> 1"
  proof
    assume "r = 1"
    with last show False by (simp add: long_brand_reply two_gigabytes_def)
  qed
  ultimately have "r = 2" by arith
  with result show ?thesis
    by (simp add: long_brand_reply two_gigabytes_def)
qed

text \<open>
  Claim C3, as stated, lets the loop stop only on a success or on an error other than the
  insufficient-buffer error. A kernel that finds every buffer too small gives neither, and
  the loop stops all the same: the buffer cannot be doubled any more.
\<close>

theorem retry_loop_refused_counterexample:
  "sysctl_str persistent_enomem_kernel ''machdep.cpu.brand_string'' 256 = StrErr ENOMEM \<and>
   sysctl_str persistent_enomem_kernel ''machdep.cpu.brand_string'' 2147483648 = StrErr ENOMEM \<and>
   brand_loop_mem two_gigabytes persistent_enomem_kernel (replicate 256 NUL) = Some (Inl bad_alloc)"
  by (simp add: persistent_enomem_reply persistent_enomem_loop)









end
